theory Spec2Isabelle
  imports Complex_Main "HOL-Library.AList"
begin

text \<open>
  A shallow embedding of the privacy analyzer in \<^verbatim>\<open>src/lib/privacy/analyzer.ts\<close>: the three
  detectors, the string similarity they share, the score, the recommendations and the
  graph transform, each as a HOL function that computes what the TypeScript method
  returns.

  Conventions of the model.
  \<^item> A JavaScript string is a \<^typ>\<open>string\<close>: one \<^typ>\<open>char\<close> per code unit,
    \<open>length\<close> for \<^verbatim>\<open>.length\<close>, \<open>!\<close> for indexing and \<open>take\<close> for
    \<^verbatim>\<open>substring(0, n)\<close>.
  \<^item> A \<^typ>\<open>char\<close> has 8 bits, so the strings of the model are those whose code units
    lie below 256 (U+0000 to U+00FF). On these, \<^verbatim>\<open>toLowerCase\<close> adds 32 to the code
    units of the capitals \<^verbatim>\<open>A\<close> to \<^verbatim>\<open>Z\<close> (65 to 90) and of the accented capitals
    U+00C0 to U+00DE (192 to 222) other than the multiplication sign U+00D7 (215), and
    leaves every other code unit alone; the result has the length of its argument.
  \<^item> A \<^verbatim>\<open>Map<string, string[]>\<close> is an association list in insertion order:
    \<^verbatim>\<open>get\<close> is \<^const>\<open>map_of\<close>, and \<^verbatim>\<open>set\<close> is \<^const>\<open>AList.update\<close>, which
    replaces the value of a key in place and appends a new key at the end, as the
    iteration order of a JavaScript map requires.
  \<^item> A \<^verbatim>\<open>for\<close> loop with fixed bounds, and \<^verbatim>\<open>forEach\<close>, is a \<^const>\<open>fold\<close> over
    the indices or elements in order; the array a loop pushes to is the accumulator.
  \<^item> Numbers. Counts, matrix cells and sub-scores are integers. The similarity
    \<^verbatim>\<open>1 - distance / maxLength\<close> and the weighted sum of the score are modelled as
    exact rationals (\<^typ>\<open>rat\<close>), not as IEEE doubles.
\<close>

section \<open>Data model\<close>

text \<open>
  The interfaces \<^verbatim>\<open>Persona\<close> and \<^verbatim>\<open>PrivacyWarning\<close> of the type declarations. The
  fields \<^verbatim>\<open>id\<close> and \<^verbatim>\<open>notes\<close> are written \<open>id_p\<close> and \<open>notes_p\<close>.
\<close>

datatype warning_type = account_overlap | username_reuse | metadata_similarity

datatype severity = low | medium | high

record private_data =
  accounts :: "string list"
  signedProofs :: "string list"
  notes_p :: string

record persona =
  id_p :: string
  publicKey :: string
  privateData :: private_data
  createdAt :: string
  isPublic :: bool
  name :: string

record privacy_warning =
  type :: warning_type
  description :: string
  severity :: severity
  affectedPersonas :: "string list"

section \<open>String similarity\<close>

text \<open>
  \<^verbatim>\<open>calculateStringSimilarity\<close> fills a matrix of \<^verbatim>\<open>a.length + 1\<close> rows and
  \<^verbatim>\<open>b.length + 1\<close> columns. A cell is \<^verbatim>\<open>null\<close> (\<open>None\<close>) until it is written;
  \<^const>\<open>None\<close> read as a number is 0, as \<^verbatim>\<open>null + 1\<close> is 1 in JavaScript. The four
  loops of the source are \<open>init_column\<close>, \<open>init_row\<close> and the nested
  \<open>fill_matrix\<close>/\<open>fill_row\<close>; lemma \<open>levenshtein_matrix_shape\<close> and the
  invariant \<open>filled\<close> show that every index they use lies inside the matrix.
\<close>

fun num_of :: "nat option \<Rightarrow> nat" where
  "num_of None = 0"
| "num_of (Some n) = n"

definition new_matrix :: "nat \<Rightarrow> nat \<Rightarrow> nat option list list" where
  "new_matrix rows cols = map (\<lambda>_. replicate cols None) (replicate rows (None :: nat option))"

definition get_cell :: "nat option list list \<Rightarrow> nat \<Rightarrow> nat \<Rightarrow> nat" where
  "get_cell matrix i j = num_of (matrix ! i ! j)"

definition set_cell :: "nat option list list \<Rightarrow> nat \<Rightarrow> nat \<Rightarrow> nat \<Rightarrow> nat option list list" where
  "set_cell matrix i j v = matrix[i := (matrix ! i)[j := Some v]]"

definition init_column :: "'a list \<Rightarrow> nat option list list \<Rightarrow> nat option list list" where
  "init_column a matrix = fold (\<lambda>i m. set_cell m i 0 i) [0..<Suc (length a)] matrix"

definition init_row :: "'a list \<Rightarrow> nat option list list \<Rightarrow> nat option list list" where
  "init_row b matrix = fold (\<lambda>j m. set_cell m 0 j j) [0..<Suc (length b)] matrix"

definition fill_cell :: "'a list \<Rightarrow> 'a list \<Rightarrow> nat \<Rightarrow> nat \<Rightarrow> nat option list list \<Rightarrow> nat option list list" where
  "fill_cell a b i j m =
     (let cost = (if a ! (i - 1) = b ! (j - 1) then 0 else 1)
      in set_cell m i j
           (min (min (get_cell m (i - 1) j + 1) (get_cell m i (j - 1) + 1))
                (get_cell m (i - 1) (j - 1) + cost)))"

definition fill_row :: "'a list \<Rightarrow> 'a list \<Rightarrow> nat \<Rightarrow> nat option list list \<Rightarrow> nat option list list" where
  "fill_row a b i matrix = fold (fill_cell a b i) [1..<Suc (length b)] matrix"

definition fill_matrix :: "'a list \<Rightarrow> 'a list \<Rightarrow> nat option list list \<Rightarrow> nat option list list" where
  "fill_matrix a b matrix = fold (fill_row a b) [1..<Suc (length a)] matrix"

definition levenshtein_matrix :: "'a list \<Rightarrow> 'a list \<Rightarrow> nat option list list" where
  "levenshtein_matrix a b =
     fill_matrix a b (init_row b (init_column a (new_matrix (length a + 1) (length b + 1))))"

definition calculateStringSimilarity :: "string \<Rightarrow> string \<Rightarrow> rat" where
  "calculateStringSimilarity a b =
     (if a = b then 1
      else if length a = 0 \<or> length b = 0 then 0
      else
        let matrix = levenshtein_matrix a b;
            distance = get_cell matrix (length a) (length b);
            maxLength = max (length a) (length b)
        in 1 - of_nat distance / of_nat maxLength)"

section \<open>Detectors\<close>

text \<open>
  \<open>split_str\<close> is \<^verbatim>\<open>String.prototype.split\<close> with a one-character separator: the
  parts between the separators, one more than there are separators.
  \<open>spread_set\<close> is \<^verbatim>\<open>[...new Set(xs)]\<close>: the elements in the order of their first
  occurrence. \<open>get_or_empty\<close> is \<^verbatim>\<open>map.get(k) || []\<close> (an array is truthy, so
  the default is taken only for a missing key), and \<open>add_persona_id\<close> is the body
  both map-building loops share. \<open>dquote\<close> is the double quote of the template
  strings.
\<close>

definition lower_char :: "char \<Rightarrow> char" where
  "lower_char c =
     (let n = (of_char c :: nat)
      in if (65 \<le> n \<and> n \<le> 90) \<or> (192 \<le> n \<and> n \<le> 222 \<and> n \<noteq> 215)
         then char_of (n + 32)
         else c)"

definition toLowerCase :: "string \<Rightarrow> string" where
  "toLowerCase s = map lower_char s"

fun split_str :: "char \<Rightarrow> string \<Rightarrow> string list" where
  "split_str sep [] = [[]]"
| "split_str sep (c # cs) =
     (if c = sep then [] # split_str sep cs
      else (c # hd (split_str sep cs)) # tl (split_str sep cs))"

definition spread_set :: "'a list \<Rightarrow> 'a list" where
  "spread_set xs = fold (\<lambda>x s. if x \<in> set s then s else s @ [x]) xs []"

definition get_or_empty :: "(string \<times> string list) list \<Rightarrow> string \<Rightarrow> string list" where
  "get_or_empty m k = (case map_of m k of Some v \<Rightarrow> v | None \<Rightarrow> [])"

definition add_persona_id ::
  "string \<Rightarrow> string \<Rightarrow> (string \<times> string list) list \<Rightarrow> (string \<times> string list) list" where
  "add_persona_id key pid m =
     (let personasWithKey = get_or_empty m key
      in AList.update key (personasWithKey @ [pid]) m)"

definition dquote :: string where
  "dquote = [CHR 0x22]"

definition build_accountMap :: "persona list \<Rightarrow> (string \<times> string list) list" where
  "build_accountMap personas =
     fold (\<lambda>persona accountMap.
             fold (\<lambda>account accountMap. add_persona_id account (id_p persona) accountMap)
                  (accounts (privateData persona)) accountMap)
          personas []"

definition overlap_warning :: "string \<Rightarrow> string list \<Rightarrow> privacy_warning" where
  "overlap_warning account personaIds =
     \<lparr>type = account_overlap,
      description = ''Account '' @ dquote @ account @ dquote @ '' is used in multiple personas'',
      severity = high,
      affectedPersonas = personaIds\<rparr>"

definition detectAccountOverlaps :: "persona list \<Rightarrow> privacy_warning list" where
  "detectAccountOverlaps personas =
     (let accountMap = build_accountMap personas
      in fold (\<lambda>(account, personaIds) warnings.
                 if length personaIds > 1
                 then warnings @ [overlap_warning account personaIds]
                 else warnings)
              accountMap [])"

definition build_usernameMap :: "persona list \<Rightarrow> (string \<times> string list) list" where
  "build_usernameMap personas =
     fold (\<lambda>persona usernameMap.
             fold (\<lambda>account usernameMap.
                     let parts = split_str CHR '':'' account
                     in if length parts = 2
                        then let username = toLowerCase (parts ! 1)
                             in add_persona_id username (id_p persona) usernameMap
                        else usernameMap)
                  (accounts (privateData persona)) usernameMap)
          personas []"

definition username_warning :: "string \<Rightarrow> string \<Rightarrow> string list \<Rightarrow> privacy_warning" where
  "username_warning u1 u2 affected =
     \<lparr>type = username_reuse,
      description = ''Similar usernames detected: '' @ dquote @ u1 @ dquote @ '' and ''
                    @ dquote @ u2 @ dquote,
      severity = medium,
      affectedPersonas = spread_set affected\<rparr>"

definition detectUsernamePatterns :: "persona list \<Rightarrow> privacy_warning list" where
  "detectUsernamePatterns personas =
     (let usernameMap = build_usernameMap personas;
          allUsernames = map fst usernameMap
      in fold (\<lambda>i warnings.
                 fold (\<lambda>j warnings.
                         let similarity =
                               calculateStringSimilarity (allUsernames ! i) (allUsernames ! j)
                         in if similarity > 0.7
                            then let affected = get_or_empty usernameMap (allUsernames ! i)
                                                @ get_or_empty usernameMap (allUsernames ! j)
                                 in warnings @
                                    [username_warning (allUsernames ! i) (allUsernames ! j) affected]
                            else warnings)
                      [i + 1..<length allUsernames] warnings)
              [0..<length allUsernames] [])"

definition metadata_warning :: "string \<Rightarrow> string \<Rightarrow> privacy_warning" where
  "metadata_warning idA idB =
     \<lparr>type = metadata_similarity,
      description = ''Similar notes detected between personas'',
      severity = low,
      affectedPersonas = [idA, idB]\<rparr>"

definition detectMetadataSimilarities :: "persona list \<Rightarrow> privacy_warning list" where
  "detectMetadataSimilarities personas =
     fold (\<lambda>i warnings.
             fold (\<lambda>j warnings.
                     let notesA = toLowerCase (notes_p (privateData (personas ! i)));
                         notesB = toLowerCase (notes_p (privateData (personas ! j)))
                     in if notesA \<noteq> [] \<and> notesB \<noteq> []
                        then let similarity = calculateStringSimilarity notesA notesB
                             in if similarity > 0.5
                                then warnings @
                                     [metadata_warning (id_p (personas ! i)) (id_p (personas ! j))]
                                else warnings
                        else warnings)
                  [i + 1..<length personas] warnings)
          [0..<length personas] []"

definition analyzePrivacy :: "persona list \<Rightarrow> privacy_warning list" where
  "analyzePrivacy personas =
     (let warnings = []
      in if length personas \<le> 1 then warnings
         else
           let accountOverlaps = detectAccountOverlaps personas;
               warnings = warnings @ accountOverlaps;
               usernameWarnings = detectUsernamePatterns personas;
               warnings = warnings @ usernameWarnings;
               metadataWarnings = detectMetadataSimilarities personas;
               warnings = warnings @ metadataWarnings
           in warnings)"

section \<open>Scoring\<close>

text \<open>
  \<^verbatim>\<open>Math.round\<close> rounds to the nearest integer, halves towards plus infinity. The
  three counts by severity that the source computes first are never used.
\<close>

record privacy_score =
  score :: int
  grade :: string
  accountIsolation :: int
  usernameUniqueness :: int
  metadataSeparation :: int

definition Math_round :: "rat \<Rightarrow> int" where
  "Math_round x = \<lfloor>x + 1 / 2\<rfloor>"

definition grade_of :: "int \<Rightarrow> string" where
  "grade_of n =
     (if n < 60 then ''F''
      else if n < 70 then ''D''
      else if n < 80 then ''C''
      else if n < 90 then ''B''
      else if n < 95 then ''A''
      else ''A+'')"

definition calculatePrivacyScore :: "privacy_warning list \<Rightarrow> privacy_score" where
  "calculatePrivacyScore warnings =
     (let highSeverity = int (length (filter (\<lambda>w. severity w = high) warnings));
          mediumSeverity = int (length (filter (\<lambda>w. severity w = medium) warnings));
          lowSeverity = int (length (filter (\<lambda>w. severity w = low) warnings));
          accountOverlaps = int (length (filter (\<lambda>w. type w = account_overlap) warnings));
          usernameReuse = int (length (filter (\<lambda>w. type w = username_reuse) warnings));
          metadataSimilarity = int (length (filter (\<lambda>w. type w = metadata_similarity) warnings));
          accountIsolation' = max 0 (100 - accountOverlaps * 50);
          usernameUniqueness' = max 0 (100 - usernameReuse * 25);
          metadataSeparation' = max 0 (100 - metadataSimilarity * 15);
          score' = Math_round (of_int accountIsolation' * 0.5
                               + of_int usernameUniqueness' * 0.3
                               + of_int metadataSeparation' * 0.2)
      in \<lparr>score = score',
          grade = grade_of score',
          accountIsolation = accountIsolation',
          usernameUniqueness = usernameUniqueness',
          metadataSeparation = metadataSeparation'\<rparr>)"

section \<open>Recommendations\<close>

text \<open>
  \<open>match_quoted\<close> is the first capture group of the first match of the regular
  expression that reads a double quote, one or more characters other than a double
  quote, and a double quote; \<open>None\<close> when the expression does not match.
\<close>

fun match_quoted :: "string \<Rightarrow> string option" where
  "match_quoted [] = None"
| "match_quoted (c # cs) =
     (if c = CHR 0x22 \<and> takeWhile (\<lambda>d. d \<noteq> CHR 0x22) cs \<noteq> []
         \<and> dropWhile (\<lambda>d. d \<noteq> CHR 0x22) cs \<noteq> []
      then Some (takeWhile (\<lambda>d. d \<noteq> CHR 0x22) cs)
      else match_quoted cs)"

definition account_recommendation :: "string \<Rightarrow> string" where
  "account_recommendation account =
     ''Consider removing account '' @ dquote @ account @ dquote @ '' from all but one persona.''"

definition generateRecommendations :: "privacy_warning list \<Rightarrow> string list" where
  "generateRecommendations warnings =
     (let recommendations = [];
          accountOverlaps = filter (\<lambda>w. type w = account_overlap) warnings;
          recommendations =
            (if length accountOverlaps > 0
             then fold (\<lambda>warning recommendations.
                          case match_quoted (description warning) of
                            Some account \<Rightarrow>
                              if account \<noteq> []
                              then recommendations @ [account_recommendation account]
                              else recommendations
                          | None \<Rightarrow> recommendations)
                       accountOverlaps
                       (recommendations @
                        [''Avoid using the same accounts across different personas to maintain separation.''])
             else recommendations);
          usernameWarnings = filter (\<lambda>w. type w = username_reuse) warnings;
          recommendations =
            (if length usernameWarnings > 0
             then recommendations @
                  [''Use completely different username patterns across personas to avoid correlation.'']
             else recommendations);
          metadataWarnings = filter (\<lambda>w. type w = metadata_similarity) warnings;
          recommendations =
            (if length metadataWarnings > 0
             then recommendations @
                  [''Avoid using similar language or content in notes across different personas.'']
             else recommendations)
      in if length warnings > 0
         then recommendations @
              [''Consider using different writing styles for each persona to avoid stylometric analysis.'',
               ''Be mindful of timing patterns - avoid switching between personas at predictable intervals.'']
         else recommendations @
              [''Great job! Continue maintaining separation between your personas.''])"

section \<open>Graph data\<close>

text \<open>
  The object literals \<^verbatim>\<open>generateGraphData\<close> returns: nodes with the fields
  \<^verbatim>\<open>id\<close>, \<^verbatim>\<open>type\<close>, \<^verbatim>\<open>accounts\<close> and \<^verbatim>\<open>label\<close>, links with \<^verbatim>\<open>source\<close>,
  \<^verbatim>\<open>target\<close>, \<^verbatim>\<open>type\<close> and \<^verbatim>\<open>severity\<close>. \<open>id_pairs\<close> is the nested loop that
  fills \<^verbatim>\<open>pairs\<close>.
\<close>

record graph_node =
  node_id :: string
  node_type :: string
  node_accounts :: nat
  label :: string

record graph_link =
  source :: string
  target :: string
  link_type :: warning_type
  link_severity :: severity

record graph_data =
  nodes :: "graph_node list"
  links :: "graph_link list"

definition id_pairs :: "string list \<Rightarrow> (string \<times> string) list" where
  "id_pairs personaIds =
     fold (\<lambda>i pairs.
             fold (\<lambda>j pairs. pairs @ [(personaIds ! i, personaIds ! j)])
                  [i + 1..<length personaIds] pairs)
          [0..<length personaIds] []"

definition generateGraphData :: "persona list \<Rightarrow> privacy_warning list \<Rightarrow> graph_data" where
  "generateGraphData personas warnings =
     (let nodes' = map (\<lambda>persona.
                          \<lparr>node_id = id_p persona,
                           node_type = ''persona'',
                           node_accounts = length (accounts (privateData persona)),
                           label = take 8 (id_p persona)\<rparr>)
                       personas;
          links' = concat (map (\<lambda>warning.
                                  let personaIds = affectedPersonas warning;
                                      pairs = id_pairs personaIds
                                  in map (\<lambda>(source', target').
                                            \<lparr>source = source',
                                             target = target',
                                             link_type = type warning,
                                             link_severity = severity warning\<rparr>)
                                         pairs)
                               warnings)
      in \<lparr>nodes = nodes', links = links'\<rparr>)"

section \<open>Specification-level notions\<close>

text \<open>
  The notions the statements below are phrased in. None of them is used by the model
  of the code above.

  The Levenshtein distance \<open>lev\<close> is given by its textbook recursion on the heads
  of the two strings; \<open>edit xs ys n\<close> says that \<open>n\<close> single-character
  deletions, insertions and substitutions turn \<open>xs\<close> into \<open>ys\<close>, and lemma
  \<open>lev_least\<close> shows that \<open>lev xs ys\<close> is the least such \<open>n\<close>.
\<close>

fun lev :: "'a list \<Rightarrow> 'a list \<Rightarrow> nat" where
  "lev [] ys = length ys"
| "lev xs [] = length xs"
| "lev (x # xs) (y # ys) =
     min (min (lev xs (y # ys) + 1) (lev (x # xs) ys + 1))
         (lev xs ys + (if x = y then 0 else 1))"

inductive edit :: "'a list \<Rightarrow> 'a list \<Rightarrow> nat \<Rightarrow> bool" where
  edit_Nil: "edit [] [] 0"
| edit_delete: "edit xs ys n \<Longrightarrow> edit (x # xs) ys (Suc n)"
| edit_insert: "edit xs ys n \<Longrightarrow> edit xs (y # ys) (Suc n)"
| edit_keep: "edit xs ys n \<Longrightarrow> edit (x # xs) (x # ys) n"
| edit_subst: "edit xs ys n \<Longrightarrow> x \<noteq> y \<Longrightarrow> edit (x # xs) (y # ys) (Suc n)"

text \<open>
  \<open>well_shaped\<close> and \<open>filled\<close> are the loop invariant of the matrix: its
  dimensions, and the cells that already hold the distance between the prefixes
  they stand for (row 0, column 0, the rows above \<open>i\<close>, and row \<open>i\<close> left of
  column \<open>j\<close>).
\<close>

definition well_shaped :: "nat \<Rightarrow> nat \<Rightarrow> nat option list list \<Rightarrow> bool" where
  "well_shaped rows cols m \<longleftrightarrow> length m = rows \<and> (\<forall>r < rows. length (m ! r) = cols)"

definition filled :: "'a list \<Rightarrow> 'a list \<Rightarrow> nat option list list \<Rightarrow> nat \<Rightarrow> nat \<Rightarrow> bool" where
  "filled a b m i j \<longleftrightarrow>
     well_shaped (Suc (length a)) (Suc (length b)) m \<and>
     (\<forall>r c. r \<le> length a \<longrightarrow> c \<le> length b \<longrightarrow>
        (r = 0 \<or> c = 0 \<or> r < i \<or> (r = i \<and> c < j)) \<longrightarrow>
        m ! r ! c = Some (lev (take r a) (take c b)))"

text \<open>
  The entries a detector collects, in encounter order, as pairs of a key (the account
  string, or the lowercased username) and the id of the persona that lists it;
  \<open>ids_for k\<close> are the persona ids recorded under key \<open>k\<close>, and
  \<open>group_entries\<close> inserts the entries into a map one by one.
\<close>

definition ids_for :: "string \<Rightarrow> (string \<times> string) list \<Rightarrow> string list" where
  "ids_for k entries = map snd (filter (\<lambda>e. fst e = k) entries)"

definition group_entries :: "(string \<times> string) list \<Rightarrow> (string \<times> string list) list" where
  "group_entries entries = fold (\<lambda>(k, pid) m. add_persona_id k pid m) entries []"

definition account_entries :: "persona list \<Rightarrow> (string \<times> string) list" where
  "account_entries personas =
     concat (map (\<lambda>p. map (\<lambda>account. (account, id_p p)) (accounts (privateData p))) personas)"

definition username_entries :: "persona list \<Rightarrow> (string \<times> string) list" where
  "username_entries personas =
     concat (map (\<lambda>p. concat (map (\<lambda>account.
                           if length (split_str CHR '':'' account) = 2
                           then [(toLowerCase (split_str CHR '':'' account ! 1), id_p p)]
                           else [])
                         (accounts (privateData p))))
                 personas)"

text \<open>The index pairs \<open>(i, j)\<close> with \<open>i < j < n\<close>, in the order of the nested loops.\<close>

definition index_pairs :: "nat \<Rightarrow> (nat \<times> nat) list" where
  "index_pairs n = concat (map (\<lambda>i. map (Pair i) [Suc i..<n]) [0..<n])"

text \<open>A persona with the given id, accounts and notes, for concrete inputs.\<close>

definition mk_persona :: "string \<Rightarrow> string list \<Rightarrow> string \<Rightarrow> persona" where
  "mk_persona i accs n =
     \<lparr>id_p = i, publicKey = [], privateData = \<lparr>accounts = accs, signedProofs = [], notes_p = n\<rparr>,
      createdAt = [], isPublic = False, name = []\<rparr>"

section \<open>Lemmas\<close>

subsection \<open>The Levenshtein distance\<close>

text \<open>
  \<open>lev\<close> is the least number of edits, it is unchanged when both strings are
  reversed, and so it also satisfies the recursion on the last characters, which is
  the one the matrix follows.
\<close>

lemma lev_Nil2 [simp]: "lev xs [] = length xs"
  by (cases xs) simp_all

lemma lev_edit: "edit xs ys (lev xs ys)"
proof (induction xs ys rule: lev.induct)
  case (1 ys)
  show ?case by (induction ys) (auto intro: edit.intros)
next
  case (2 x xs)
  have "edit zs [] (length zs)" for zs :: "'a list"
    by (induction zs) (auto intro: edit.intros)
  then show ?case by (metis lev_Nil2)
next
  case (3 x xs y ys)
  let ?d = "lev xs (y # ys) + 1" and ?i = "lev (x # xs) ys + 1"
    and ?s = "lev xs ys + (if x = y then 0 else 1)"
  have "lev (x # xs) (y # ys) = ?d \<or> lev (x # xs) (y # ys) = ?i
    \<or> lev (x # xs) (y # ys) = ?s"
    by (simp add: min_def)
  then show ?case
  proof (elim disjE)
    assume "lev (x # xs) (y # ys) = ?d"
    then show ?thesis using "3.IH"(1) by (simp del: lev.simps) (rule edit_delete)
  next
    assume "lev (x # xs) (y # ys) = ?i"
    then show ?thesis using "3.IH"(2) by (simp del: lev.simps) (rule edit_insert)
  next
    assume "lev (x # xs) (y # ys) = ?s"
    then show ?thesis using "3.IH"(3)
      by (cases "x = y") (auto simp del: lev.simps intro: edit_keep edit_subst)
  qed
qed

lemma lev_Cons1_le: "lev (x # xs) ys \<le> Suc (lev xs ys)"
proof (induction xs ys arbitrary: x rule: lev.induct)
  case (1 ys)
  then show ?case by (cases ys) simp_all
next
  case (2 x xs)
  then show ?case by simp
next
  case (3 x' xs y ys)
  show ?case using "3.IH"(2)[of x] by (simp add: min_def)
qed

lemma lev_Cons2_le: "lev xs (y # ys) \<le> Suc (lev xs ys)"
proof (induction xs ys arbitrary: y rule: lev.induct)
  case (1 ys)
  then show ?case by simp
next
  case (2 x xs)
  then show ?case by simp
next
  case (3 x xs y' ys)
  show ?case using "3.IH"(1)[of y] by (simp add: min_def)
qed

lemma edit_lev: "edit xs ys n \<Longrightarrow> lev xs ys \<le> n"
proof (induction rule: edit.induct)
  case edit_Nil
  show ?case by simp
next
  case (edit_delete xs ys n x)
  then show ?case using lev_Cons1_le[of x xs ys] by linarith
next
  case (edit_insert xs ys n y)
  then show ?case using lev_Cons2_le[of xs y ys] by linarith
next
  case (edit_keep xs ys n x)
  then show ?case by (simp add: min_def)
next
  case (edit_subst xs ys n x y)
  then show ?case by (simp add: min_def)
qed

lemma edit_delete_snoc: "edit xs ys n \<Longrightarrow> edit (xs @ [x]) ys (Suc n)"
  by (induction rule: edit.induct) (auto intro: edit.intros)

lemma edit_insert_snoc: "edit xs ys n \<Longrightarrow> edit xs (ys @ [y]) (Suc n)"
  by (induction rule: edit.induct) (auto intro: edit.intros)

lemma edit_keep_snoc: "edit xs ys n \<Longrightarrow> edit (xs @ [x]) (ys @ [x]) n"
  by (induction rule: edit.induct) (auto intro: edit.intros)

lemma edit_subst_snoc: "edit xs ys n \<Longrightarrow> x \<noteq> y \<Longrightarrow> edit (xs @ [x]) (ys @ [y]) (Suc n)"
  by (induction rule: edit.induct) (auto intro: edit.intros)

lemma edit_rev: "edit xs ys n \<Longrightarrow> edit (rev xs) (rev ys) n"
  by (induction rule: edit.induct)
     (auto intro: edit_Nil edit_delete_snoc edit_insert_snoc edit_keep_snoc edit_subst_snoc)

lemma lev_rev_le: "lev (rev xs) (rev ys) \<le> lev xs ys"
  by (rule edit_lev) (rule edit_rev, rule lev_edit)

lemma lev_rev: "lev (rev xs) (rev ys) = lev xs ys"
  using lev_rev_le[of xs ys] lev_rev_le[of "rev xs" "rev ys"] by simp

lemma lev_snoc:
  "lev (xs @ [x]) (ys @ [y]) =
     min (min (lev xs (ys @ [y]) + 1) (lev (xs @ [x]) ys + 1))
         (lev xs ys + (if x = y then 0 else 1))"
proof -
  have "lev (xs @ [x]) (ys @ [y]) = lev (x # rev xs) (y # rev ys)"
    using lev_rev[of "xs @ [x]" "ys @ [y]"] by simp
  also have "\<dots> = min (min (lev (rev xs) (y # rev ys) + 1) (lev (x # rev xs) (rev ys) + 1))
         (lev (rev xs) (rev ys) + (if x = y then 0 else 1))"
    by simp
  also have "lev (rev xs) (y # rev ys) = lev xs (ys @ [y])"
    using lev_rev[of xs "ys @ [y]"] by simp
  also have "lev (x # rev xs) (rev ys) = lev (xs @ [x]) ys"
    using lev_rev[of "xs @ [x]" ys] by simp
  also have "lev (rev xs) (rev ys) = lev xs ys"
    by (rule lev_rev)
  finally show ?thesis .
qed

lemma lev_sym: "lev xs ys = lev ys xs"
  by (induction xs ys rule: lev.induct) (simp_all add: min.commute min.left_commute eq_commute)

lemma lev_le_max: "lev xs ys \<le> max (length xs) (length ys)"
proof (induction xs ys rule: lev.induct)
  case (3 x xs y ys)
  then show ?case by (simp add: min_def max_def split: if_splits)
qed simp_all

lemma lev_eq_0_iff: "lev xs ys = 0 \<longleftrightarrow> xs = ys"
proof (induction xs ys rule: lev.induct)
  case (3 x xs y ys)
  then show ?case by (auto simp: min_def split: if_splits)
qed auto

lemma lev_least: "lev xs ys = (LEAST n. edit xs ys n)"
  by (rule Least_equality[symmetric]) (auto intro: lev_edit edit_lev)

subsection \<open>The matrix loops\<close>

text \<open>The invariant rule for a loop over an index range.\<close>

lemma fold_upt_invariant:
  assumes "P lo m" and "lo \<le> hi"
    and step: "\<And>j s. lo \<le> j \<Longrightarrow> j < hi \<Longrightarrow> P j s \<Longrightarrow> P (Suc j) (f j s)"
  shows "P hi (fold f [lo..<hi] m)"
  using \<open>lo \<le> hi\<close>
proof (induction hi rule: dec_induct)
  case base
  show ?case using assms(1) by simp
next
  case (step n)
  then show ?case using assms(3)[of n "fold f [lo..<n] m"] by simp
qed

lemma well_shaped_new_matrix: "well_shaped rows cols (new_matrix rows cols)"
  by (simp add: well_shaped_def new_matrix_def)

lemma well_shaped_set_cell:
  "well_shaped rows cols m \<Longrightarrow> well_shaped rows cols (set_cell m i j v)"
proof (cases "i < length m")
  case True
  assume "well_shaped rows cols m"
  then show ?thesis using True
    by (simp add: well_shaped_def set_cell_def nth_list_update)
next
  case False
  assume "well_shaped rows cols m"
  then show ?thesis using False by (simp add: set_cell_def list_update_beyond)
qed

lemma nth_set_cell:
  assumes "well_shaped rows cols m" "i < rows" "j < cols" "r < rows"
  shows "set_cell m i j v ! r ! c = (if r = i \<and> c = j then Some v else m ! r ! c)"
  using assms by (auto simp: well_shaped_def set_cell_def nth_list_update)

lemma init_column_correct:
  assumes "well_shaped (Suc (length a)) cols m" "0 < cols"
  shows "well_shaped (Suc (length a)) cols (init_column a m) \<and>
         (\<forall>r \<le> length a. init_column a m ! r ! 0 = Some r)"
proof -
  let ?P = "\<lambda>i s. well_shaped (Suc (length a)) cols s \<and> (\<forall>r < i. s ! r ! 0 = Some r)"
  have "?P (Suc (length a)) (fold (\<lambda>i s. set_cell s i 0 i) [0..<Suc (length a)] m)"
  proof (rule fold_upt_invariant[where P = ?P])
    show "?P 0 m" using assms by simp
    show "0 \<le> Suc (length a)" by simp
    fix j s
    assume j: "j < Suc (length a)" and P: "?P j s"
    show "?P (Suc j) (set_cell s j 0 j)"
      using P j assms(2) by (auto simp: well_shaped_set_cell nth_set_cell less_Suc_eq)
  qed
  then show ?thesis by (simp add: init_column_def less_Suc_eq_le)
qed

lemma init_row_correct:
  assumes "well_shaped rows (Suc (length b)) m" "0 < rows"
    and "\<forall>r < rows. m ! r ! 0 = Some r"
  shows "well_shaped rows (Suc (length b)) (init_row b m) \<and>
         (\<forall>r < rows. init_row b m ! r ! 0 = Some r) \<and>
         (\<forall>c \<le> length b. init_row b m ! 0 ! c = Some c)"
proof -
  let ?P = "\<lambda>j s. well_shaped rows (Suc (length b)) s \<and> (\<forall>r < rows. s ! r ! 0 = Some r) \<and>
     (\<forall>c < j. s ! 0 ! c = Some c)"
  have "?P (Suc (length b)) (fold (\<lambda>j s. set_cell s 0 j j) [0..<Suc (length b)] m)"
  proof (rule fold_upt_invariant[where P = ?P])
    show "?P 0 m" using assms by simp
    show "0 \<le> Suc (length b)" by simp
    fix j s
    assume j: "j < Suc (length b)" and P: "?P j s"
    show "?P (Suc j) (set_cell s 0 j j)"
      using P j assms(2) by (auto simp: well_shaped_set_cell nth_set_cell less_Suc_eq)
  qed
  then show ?thesis by (simp add: init_row_def less_Suc_eq_le)
qed

lemma filled_init:
  "filled a b (init_row b (init_column a (new_matrix (length a + 1) (length b + 1)))) 1 1"
proof -
  let ?m0 = "new_matrix (length a + 1) (length b + 1)"
  have ws0: "well_shaped (Suc (length a)) (Suc (length b)) ?m0"
    using well_shaped_new_matrix[of "Suc (length a)" "Suc (length b)"] by simp
  note c = init_column_correct[OF ws0, simplified]
  have r: "well_shaped (Suc (length a)) (Suc (length b)) (init_row b (init_column a ?m0)) \<and>
         (\<forall>r < Suc (length a). init_row b (init_column a ?m0) ! r ! 0 = Some r) \<and>
         (\<forall>c \<le> length b. init_row b (init_column a ?m0) ! 0 ! c = Some c)"
    by (rule init_row_correct) (use c in \<open>auto simp: less_Suc_eq_le\<close>)
  show ?thesis
    unfolding filled_def
  proof (intro conjI allI impI)
    show "well_shaped (Suc (length a)) (Suc (length b)) (init_row b (init_column a ?m0))"
      using r by simp
  next
    fix r' c'
    assume le: "r' \<le> length a" "c' \<le> length b"
      and "r' = 0 \<or> c' = 0 \<or> r' < 1 \<or> r' = 1 \<and> c' < 1"
    then have "r' = 0 \<or> c' = 0" by auto
    then show "init_row b (init_column a ?m0) ! r' ! c' = Some (lev (take r' a) (take c' b))"
      using r le by (auto simp: less_Suc_eq_le)
  qed
qed

lemma filled_fill_cell:
  assumes "filled a b m i j" "1 \<le> i" "i \<le> length a" "1 \<le> j" "j \<le> length b"
  shows "filled a b (fill_cell a b i j m) i (Suc j)"
proof -
  have ws: "well_shaped (Suc (length a)) (Suc (length b)) m"
    using assms(1) by (simp add: filled_def)
  have cells: "m ! r ! c = Some (lev (take r a) (take c b))"
    if "r \<le> length a" "c \<le> length b" "r = 0 \<or> c = 0 \<or> r < i \<or> (r = i \<and> c < j)" for r c
    using assms(1) that unfolding filled_def by blast
  obtain i' j' where i': "i = Suc i'" and j': "j = Suc j'"
    using assms(2,4) by (metis One_nat_def Suc_le_D)
  have ta: "take i a = take i' a @ [a ! i']"
    using assms(3) i' by (simp add: take_Suc_conv_app_nth)
  have tb: "take j b = take j' b @ [b ! j']"
    using assms(5) j' by (simp add: take_Suc_conv_app_nth)
  have up: "get_cell m i' j = lev (take i' a) (take j b)"
    using cells[of i' j] assms i' by (simp add: get_cell_def)
  have left: "get_cell m i j' = lev (take i a) (take j' b)"
    using cells[of i j'] assms j' by (simp add: get_cell_def)
  have diag: "get_cell m i' j' = lev (take i' a) (take j' b)"
    using cells[of i' j'] assms i' j' by (simp add: get_cell_def)
  define v where "v = min (min (get_cell m (i - 1) j + 1) (get_cell m i (j - 1) + 1))
                (get_cell m (i - 1) (j - 1) + (if a ! (i - 1) = b ! (j - 1) then 0 else 1))"
  have rec: "lev (take i a) (take j b) =
      min (min (lev (take i' a) (take j b) + 1) (lev (take i a) (take j' b) + 1))
          (lev (take i' a) (take j' b) + (if a ! i' = b ! j' then 0 else 1))"
    using lev_snoc[of "take i' a" "a ! i'" "take j' b" "b ! j'"]
    by (simp only: ta[symmetric] tb[symmetric])
  have idx: "i - 1 = i'" "j - 1 = j'"
    using i' j' by simp_all
  have v: "v = lev (take i a) (take j b)"
    unfolding v_def idx up left diag by (rule rec[symmetric])
  have fc: "fill_cell a b i j m = set_cell m i j v"
    by (simp add: fill_cell_def v_def Let_def)
  show ?thesis
    unfolding filled_def fc
  proof (intro conjI allI impI)
    show "well_shaped (Suc (length a)) (Suc (length b)) (set_cell m i j v)"
      using ws by (rule well_shaped_set_cell)
  next
    fix r c
    assume le: "r \<le> length a" "c \<le> length b"
      and reg: "r = 0 \<or> c = 0 \<or> r < i \<or> r = i \<and> c < Suc j"
    have nth: "set_cell m i j v ! r ! c = (if r = i \<and> c = j then Some v else m ! r ! c)"
      using ws assms(3,5) le by (intro nth_set_cell[OF ws]) auto
    show "set_cell m i j v ! r ! c = Some (lev (take r a) (take c b))"
    proof (cases "r = i \<and> c = j")
      case True
      then show ?thesis using nth v by simp
    next
      case False
      then have "r = 0 \<or> c = 0 \<or> r < i \<or> (r = i \<and> c < j)"
        using reg by auto
      then show ?thesis using nth False cells[OF le] by simp
    qed
  qed
qed

lemma filled_next_row:
  assumes "filled a b m i (Suc (length b))"
  shows "filled a b m (Suc i) 1"
  unfolding filled_def
proof (intro conjI allI impI)
  show "well_shaped (Suc (length a)) (Suc (length b)) m"
    using assms by (simp add: filled_def)
next
  fix r c
  assume le: "r \<le> length a" "c \<le> length b"
    and "r = 0 \<or> c = 0 \<or> r < Suc i \<or> r = Suc i \<and> c < 1"
  then have "r = 0 \<or> c = 0 \<or> r < i \<or> (r = i \<and> c < Suc (length b))"
    by auto
  with le show "m ! r ! c = Some (lev (take r a) (take c b))"
    using assms unfolding filled_def by blast
qed

lemma filled_fill_row:
  assumes "filled a b m i 1" "1 \<le> i" "i \<le> length a"
  shows "filled a b (fill_row a b i m) (Suc i) 1"
proof -
  have "filled a b (fold (fill_cell a b i) [1..<Suc (length b)] m) i (Suc (length b))"
  proof (rule fold_upt_invariant[where P = "\<lambda>j s. filled a b s i j"])
    show "filled a b m i 1" by fact
    show "1 \<le> Suc (length b)" by simp
    fix j s
    assume "1 \<le> j" "j < Suc (length b)" "filled a b s i j"
    then show "filled a b (fill_cell a b i j s) i (Suc j)"
      using assms(2,3) by (intro filled_fill_cell) auto
  qed
  then show ?thesis
    unfolding fill_row_def by (rule filled_next_row)
qed

lemma filled_fill_matrix:
  assumes "filled a b m 1 1"
  shows "filled a b (fill_matrix a b m) (Suc (length a)) 1"
  unfolding fill_matrix_def
proof (rule fold_upt_invariant[where P = "\<lambda>i s. filled a b s i 1"])
  show "filled a b m 1 1" by fact
  show "1 \<le> Suc (length a)" by simp
  fix i s
  assume "1 \<le> i" "i < Suc (length a)" "filled a b s i 1"
  then show "filled a b (fill_row a b i s) (Suc i) 1"
    by (intro filled_fill_row) auto
qed

lemma levenshtein_matrix_correct:
  assumes "r \<le> length a" "c \<le> length b"
  shows "levenshtein_matrix a b ! r ! c = Some (lev (take r a) (take c b))"
proof -
  have "filled a b (levenshtein_matrix a b) (Suc (length a)) 1"
    unfolding levenshtein_matrix_def by (rule filled_fill_matrix) (rule filled_init)
  then show ?thesis using assms by (auto simp: filled_def)
qed

lemma levenshtein_matrix_shape:
  "well_shaped (Suc (length a)) (Suc (length b)) (levenshtein_matrix a b)"
proof -
  have "filled a b (levenshtein_matrix a b) (Suc (length a)) 1"
    unfolding levenshtein_matrix_def by (rule filled_fill_matrix) (rule filled_init)
  then show ?thesis by (simp add: filled_def)
qed

lemma levenshtein_distance:
  "get_cell (levenshtein_matrix a b) (length a) (length b) = lev a b"
  using levenshtein_matrix_correct[of "length a" a "length b" b] by (simp add: get_cell_def)

lemma calculateStringSimilarity_lev:
  "calculateStringSimilarity a b =
     (if a = b then 1 else if a = [] \<or> b = [] then 0
      else 1 - of_nat (lev a b) / of_nat (max (length a) (length b)))"
  by (simp add: calculateStringSimilarity_def levenshtein_distance Let_def)

subsection \<open>Loops that push, maps and entries\<close>

lemma fold_push_concat: "fold (\<lambda>x acc. acc @ g x) xs acc = acc @ concat (map g xs)"
  by (induction xs arbitrary: acc) simp_all

lemma fold_concat_map: "fold f (concat (map g xs)) s = fold (\<lambda>x. fold f (g x)) xs s"
  by (induction xs arbitrary: s) simp_all

lemma spread_set_snoc:
  "spread_set (xs @ [x]) = (if x \<in> set (spread_set xs) then spread_set xs else spread_set xs @ [x])"
  by (simp add: spread_set_def)

lemma set_spread_set [simp]: "set (spread_set xs) = set xs"
  by (induction xs rule: rev_induct) (auto simp: spread_set_snoc, simp add: spread_set_def)

lemma distinct_spread_set [simp]: "distinct (spread_set xs)"
  by (induction xs rule: rev_induct) (simp add: spread_set_def, simp add: spread_set_snoc)

lemma spread_set_distinct: "distinct xs \<Longrightarrow> spread_set xs = xs"
  by (induction xs rule: rev_induct) (simp add: spread_set_def, simp add: spread_set_snoc)

lemma ids_for_snoc:
  "ids_for k' (es @ [(k, p)]) = (if k' = k then ids_for k es @ [p] else ids_for k' es)"
  by (auto simp: ids_for_def)

lemma ids_for_empty: "k \<notin> fst ` set es \<Longrightarrow> ids_for k es = []"
  by (auto simp: ids_for_def filter_empty_conv)

lemma update_graph:
  "distinct K \<Longrightarrow> AList.update k v (map (\<lambda>x. (x, f x)) K) =
     (if k \<in> set K then map (\<lambda>x. (x, if x = k then v else f x)) K
      else map (\<lambda>x. (x, f x)) K @ [(k, v)])"
  by (induction K) auto

lemma get_or_empty_graph:
  "get_or_empty (map (\<lambda>x. (x, f x)) K) k = (if k \<in> set K then f k else [])"
  by (induction K) (auto simp: get_or_empty_def)

lemma group_entries_snoc:
  "group_entries (es @ [(k, p)]) = add_persona_id k p (group_entries es)"
  by (simp add: group_entries_def)

lemma group_entries_graph:
  "group_entries es = map (\<lambda>k. (k, ids_for k es)) (spread_set (map fst es))"
proof (induction es rule: rev_induct)
  case Nil
  show ?case by (simp add: group_entries_def spread_set_def)
next
  case (snoc e es)
  obtain k p where e: "e = (k, p)" by (cases e)
  let ?K = "spread_set (map fst es)"
  have g: "get_or_empty (group_entries es) k = ids_for k es"
    unfolding snoc.IH get_or_empty_graph using ids_for_empty[of k es] by auto
  have "group_entries (es @ [e]) = AList.update k (ids_for k es @ [p]) (map (\<lambda>k. (k, ids_for k es)) ?K)"
    unfolding e group_entries_snoc add_persona_id_def Let_def g by (simp add: snoc.IH)
  also have "\<dots> = map (\<lambda>k'. (k', ids_for k' (es @ [e]))) (spread_set (map fst (es @ [e])))"
    unfolding update_graph[OF distinct_spread_set] e by (auto simp: spread_set_snoc ids_for_snoc)
  finally show ?case .
qed

lemma build_accountMap_group: "build_accountMap personas = group_entries (account_entries personas)"
  by (simp add: build_accountMap_def group_entries_def account_entries_def fold_concat_map
      fold_map comp_def)

lemma build_usernameMap_group: "build_usernameMap personas = group_entries (username_entries personas)"
proof -
  have inner: "(\<lambda>account. fold (\<lambda>(k, pid). add_persona_id k pid)
           (if length (split_str CHR '':'' account) = 2
            then [(toLowerCase (split_str CHR '':'' account ! 1), i)] else []))
      = (\<lambda>account usernameMap.
               let parts = split_str CHR '':'' account
               in if length parts = 2
                  then let username = toLowerCase (parts ! 1)
                       in add_persona_id username i usernameMap
                  else usernameMap)" for i
    by (auto simp: fun_eq_iff Let_def)
  show ?thesis
    unfolding build_usernameMap_def group_entries_def username_entries_def fold_concat_map inner
    by simp
qed

lemma detectAccountOverlaps_closed:
  "detectAccountOverlaps personas =
     (let es = account_entries personas
      in concat (map (\<lambda>account. if length (ids_for account es) > 1
                                 then [overlap_warning account (ids_for account es)] else [])
                     (spread_set (map fst es))))"
proof -
  have push: "(\<lambda>(account, personaIds) warnings.
                 if length personaIds > 1
                 then warnings @ [overlap_warning account personaIds]
                 else warnings) = (\<lambda>e warnings. warnings @ (case e of (account, personaIds) \<Rightarrow>
                 if length personaIds > 1 then [overlap_warning account personaIds] else []))"
    by (auto simp: fun_eq_iff)
  show ?thesis
    unfolding detectAccountOverlaps_def Let_def push fold_push_concat build_accountMap_group
      group_entries_graph
    by (simp add: comp_def)
qed

subsection \<open>Index pairs and the closed forms of the nested loops\<close>

lemma set_index_pairs: "set (index_pairs n) = {(i, j). i < j \<and> j < n}"
  by (fastforce simp: index_pairs_def image_iff)

lemma distinct_pair_concat:
  "distinct xs \<Longrightarrow> (\<And>i. distinct (f i)) \<Longrightarrow>
   distinct (concat (map (\<lambda>i. map (Pair i) (f i)) xs))"
  by (induction xs) (auto simp: distinct_map inj_on_def)

lemma distinct_index_pairs: "distinct (index_pairs n)"
  unfolding index_pairs_def by (rule distinct_pair_concat) simp_all

lemma concat_map_pairs:
  "concat (map (\<lambda>i. concat (map (g i) (js i))) is) =
   concat (map (\<lambda>(i, j). g i j) (concat (map (\<lambda>i. map (Pair i) (js i)) is)))"
  by (induction "is") (simp_all add: comp_def)

lemma nested_push_index_pairs:
  "fold (\<lambda>i acc. fold (\<lambda>j acc. acc @ g i j) [i + 1..<n] acc) [0..<n] [] =
   concat (map (\<lambda>(i, j). g i j) (index_pairs n))"
  unfolding fold_push_concat index_pairs_def concat_map_pairs[symmetric] by simp

lemma concat_map_cong_set:
  "(\<And>x. x \<in> set xs \<Longrightarrow> f x = g x) \<Longrightarrow> concat (map f xs) = concat (map g xs)"
  by (induction xs) simp_all

lemma detectMetadataSimilarities_closed:
  "detectMetadataSimilarities personas =
     concat (map (\<lambda>(i, j).
                   if notes_p (privateData (personas ! i)) \<noteq> [] \<and>
                      notes_p (privateData (personas ! j)) \<noteq> [] \<and>
                      calculateStringSimilarity
                        (toLowerCase (notes_p (privateData (personas ! i))))
                        (toLowerCase (notes_p (privateData (personas ! j)))) > 1 / 2
                   then [metadata_warning (id_p (personas ! i)) (id_p (personas ! j))]
                   else [])
                 (index_pairs (length personas)))"
proof -
  have push: "(\<lambda>j warnings.
                     let notesA = toLowerCase (notes_p (privateData (personas ! i)));
                         notesB = toLowerCase (notes_p (privateData (personas ! j)))
                     in if notesA \<noteq> [] \<and> notesB \<noteq> []
                        then let similarity = calculateStringSimilarity notesA notesB
                             in if similarity > 0.5
                                then warnings @
                                     [metadata_warning (id_p (personas ! i)) (id_p (personas ! j))]
                                else warnings
                        else warnings)
     = (\<lambda>j warnings. warnings @
          (if notes_p (privateData (personas ! i)) \<noteq> [] \<and>
                      notes_p (privateData (personas ! j)) \<noteq> [] \<and>
                      calculateStringSimilarity
                        (toLowerCase (notes_p (privateData (personas ! i))))
                        (toLowerCase (notes_p (privateData (personas ! j)))) > 1 / 2
                   then [metadata_warning (id_p (personas ! i)) (id_p (personas ! j))]
                   else []))" for i
    by (auto simp: fun_eq_iff Let_def toLowerCase_def)
  show ?thesis
    unfolding detectMetadataSimilarities_def push by (rule nested_push_index_pairs)
qed

lemma detectUsernamePatterns_closed:
  "detectUsernamePatterns personas =
     (let es = username_entries personas;
          us = spread_set (map fst es)
      in concat (map (\<lambda>(i, j).
                   if calculateStringSimilarity (us ! i) (us ! j) > 7 / 10
                   then [username_warning (us ! i) (us ! j)
                           (ids_for (us ! i) es @ ids_for (us ! j) es)]
                   else [])
                 (index_pairs (length us))))"
proof -
  define es where "es = username_entries personas"
  define us where "us = spread_set (map fst es)"
  define m where "m = build_usernameMap personas"
  have m: "m = map (\<lambda>k. (k, ids_for k es)) us"
    unfolding m_def es_def us_def build_usernameMap_group group_entries_graph ..
  have keys: "map fst m = us"
    unfolding m by (simp add: comp_def)
  have get: "get_or_empty m (us ! i) = ids_for (us ! i) es" if "i < length us" for i
    unfolding m get_or_empty_graph using that by simp
  have push: "(\<lambda>j warnings.
                 if calculateStringSimilarity (us ! i) (us ! j) > 7 / 10
                 then warnings @ [username_warning (us ! i) (us ! j)
                        (get_or_empty m (us ! i) @ get_or_empty m (us ! j))]
                 else warnings)
     = (\<lambda>j warnings. warnings @
          (if calculateStringSimilarity (us ! i) (us ! j) > 7 / 10
           then [username_warning (us ! i) (us ! j)
                   (get_or_empty m (us ! i) @ get_or_empty m (us ! j))]
           else []))" for i
    by (auto simp: fun_eq_iff Let_def)
  have "detectUsernamePatterns personas =
      concat (map (\<lambda>(i, j).
                   if calculateStringSimilarity (us ! i) (us ! j) > 7 / 10
                   then [username_warning (us ! i) (us ! j)
                           (get_or_empty m (us ! i) @ get_or_empty m (us ! j))]
                   else [])
                 (index_pairs (length us)))"
    unfolding detectUsernamePatterns_def Let_def m_def[symmetric] keys push
    by (rule nested_push_index_pairs)
  also have "\<dots> = concat (map (\<lambda>(i, j).
                   if calculateStringSimilarity (us ! i) (us ! j) > 7 / 10
                   then [username_warning (us ! i) (us ! j)
                           (ids_for (us ! i) es @ ids_for (us ! j) es)]
                   else [])
                 (index_pairs (length us)))"
    by (rule concat_map_cong_set) (auto simp: set_index_pairs get)
  finally show ?thesis
    unfolding Let_def es_def us_def .
qed

lemma id_pairs_closed:
  "id_pairs personaIds =
     map (\<lambda>(i, j). (personaIds ! i, personaIds ! j)) (index_pairs (length personaIds))"
proof -
  have "id_pairs personaIds =
      concat (map (\<lambda>(i, j). [(personaIds ! i, personaIds ! j)]) (index_pairs (length personaIds)))"
    unfolding id_pairs_def by (rule nested_push_index_pairs)
  also have "\<dots> = map (\<lambda>(i, j). (personaIds ! i, personaIds ! j)) (index_pairs (length personaIds))"
    by (induction "index_pairs (length personaIds)") (auto simp: case_prod_beta)
  finally show ?thesis .
qed

subsection \<open>Lowercasing\<close>

text \<open>The code units of a lowercased string, computed from those of the string.\<close>

lemma of_char_lower_char:
  "(of_char (lower_char c) :: nat) =
     (if (65 \<le> (of_char c :: nat) \<and> (of_char c :: nat) \<le> 90) \<or>
         (192 \<le> (of_char c :: nat) \<and> (of_char c :: nat) \<le> 222 \<and> (of_char c :: nat) \<noteq> 215)
      then of_char c + 32 else of_char c)"
  by (auto simp: lower_char_def Let_def)

lemma code_units_toLowerCase:
  "map of_char (toLowerCase s) =
     map (\<lambda>c. if (65 \<le> (of_char c :: nat) \<and> (of_char c :: nat) \<le> 90) \<or>
                  (192 \<le> (of_char c :: nat) \<and> (of_char c :: nat) \<le> 222 \<and> (of_char c :: nat) \<noteq> 215)
               then of_char c + 32 else (of_char c :: nat)) s"
  unfolding toLowerCase_def map_map comp_def of_char_lower_char ..

lemma toLowerCase_eq_Nil [simp]: "toLowerCase s = [] \<longleftrightarrow> s = []"
  by (simp add: toLowerCase_def)

lemma index_pairs_short: "n \<le> 1 \<Longrightarrow> index_pairs n = []"
  by (cases n) (simp_all add: index_pairs_def)

lemma length_index_pairs: "length (index_pairs n) = n * (n - 1) div 2"
proof -
  have "length (index_pairs n) = sum_list (map (\<lambda>i. n - Suc i) [0..<n])"
    by (simp add: index_pairs_def length_concat comp_def)
  also have "\<dots> = (\<Sum>i = 0..<n. n - Suc i)"
    by (simp add: interv_sum_list_conv_sum_set_nat)
  also have "\<dots> = (\<Sum>i = 0..<n. i)"
    using sum.atLeastLessThan_rev[of "\<lambda>i. i" 0 n] by simp
  also have "\<dots> = n * (n - 1) div 2"
    by (simp add: Sum_Ico_nat)
  finally show ?thesis .
qed

lemma links_closed:
  "links (generateGraphData personas warnings) =
     concat (map (\<lambda>w. map (\<lambda>(i, j).
                             \<lparr>source = affectedPersonas w ! i,
                              target = affectedPersonas w ! j,
                              link_type = type w,
                              link_severity = severity w\<rparr>)
                           (index_pairs (length (affectedPersonas w))))
                 warnings)"
  unfolding generateGraphData_def Let_def id_pairs_closed
  by (simp add: comp_def split_def)

lemma index_pairs_2: "index_pairs (Suc (Suc 0)) = [(0, Suc 0)]"
  by (simp add: index_pairs_def upt_rec)

lemma index_pairs_3:
  "index_pairs (Suc (Suc (Suc 0))) = [(0, Suc 0), (0, Suc (Suc 0)), (Suc 0, Suc (Suc 0))]"
  by (simp add: index_pairs_def upt_rec)

subsection \<open>Extraction of the quoted account\<close>

lemma match_quoted_skip: "CHR 0x22 \<notin> set pre \<Longrightarrow> match_quoted (pre @ s) = match_quoted s"
  by (induction pre) auto

lemma match_quoted_hit:
  "account \<noteq> [] \<Longrightarrow> CHR 0x22 \<notin> set account \<Longrightarrow>
   match_quoted (CHR 0x22 # account @ CHR 0x22 # rest) = Some account"
proof -
  assume ne: "account \<noteq> []" and nq: "CHR 0x22 \<notin> set account"
  have p: "\<And>x. x \<in> set account \<Longrightarrow> x \<noteq> CHR 0x22"
    using nq by auto
  have tw: "takeWhile (\<lambda>d. d \<noteq> CHR 0x22) (account @ CHR 0x22 # rest) = account"
    using takeWhile_append2[of account "\<lambda>d. d \<noteq> CHR 0x22" "CHR 0x22 # rest"] p by simp
  have dw: "dropWhile (\<lambda>d. d \<noteq> CHR 0x22) (account @ CHR 0x22 # rest) = CHR 0x22 # rest"
    using dropWhile_append2[of account "\<lambda>d. d \<noteq> CHR 0x22" "CHR 0x22 # rest"] p by simp
  show ?thesis
    using ne by (simp add: tw dw)
qed

lemma match_quoted_overlap_warning:
  "account \<noteq> [] \<Longrightarrow> CHR 0x22 \<notin> set account \<Longrightarrow>
   match_quoted (description (overlap_warning account ids)) = Some account"
  using match_quoted_skip[of "''Account ''" "CHR 0x22 # account @ CHR 0x22 # '' is used in multiple personas''"]
  by (simp add: overlap_warning_def dquote_def match_quoted_hit del: match_quoted.simps)

lemma match_quoted_nonempty: "match_quoted s = Some account \<Longrightarrow> account \<noteq> []"
  by (induction s) (auto split: if_splits)

lemma match_quoted_no_quote: "CHR 0x22 \<notin> set s \<Longrightarrow> match_quoted s = None"
  by (induction s) auto

lemma generateRecommendations_closed:
  "generateRecommendations warnings =
     (let overlaps = filter (\<lambda>w. type w = account_overlap) warnings
      in (if overlaps = [] then []
          else ''Avoid using the same accounts across different personas to maintain separation.''
               # concat (map (\<lambda>w. case match_quoted (description w) of
                                      Some account \<Rightarrow> [account_recommendation account]
                                    | None \<Rightarrow> [])
                             overlaps))
         @ (if filter (\<lambda>w. type w = username_reuse) warnings = [] then []
            else [''Use completely different username patterns across personas to avoid correlation.''])
         @ (if filter (\<lambda>w. type w = metadata_similarity) warnings = [] then []
            else [''Avoid using similar language or content in notes across different personas.''])
         @ (if warnings = []
            then [''Great job! Continue maintaining separation between your personas.'']
            else [''Consider using different writing styles for each persona to avoid stylometric analysis.'',
                  ''Be mindful of timing patterns - avoid switching between personas at predictable intervals.'']))"
proof -
  have push: "(\<lambda>warning recommendations.
                  case match_quoted (description warning) of
                    Some account \<Rightarrow>
                      if account \<noteq> []
                      then recommendations @ [account_recommendation account]
                      else recommendations
                  | None \<Rightarrow> recommendations)
      = (\<lambda>warning recommendations. recommendations @
           (case match_quoted (description warning) of
              Some account \<Rightarrow> [account_recommendation account]
            | None \<Rightarrow> []))"
    by (auto simp: fun_eq_iff dest: match_quoted_nonempty split: option.splits)
  show ?thesis
    unfolding generateRecommendations_def Let_def push fold_push_concat
    by simp
qed

section \<open>The similarity engine\<close>

text \<open>
  Claim C3. For all strings \<open>a\<close> and \<open>b\<close> the similarity lies between 0 and 1; it
  is 1 exactly when \<open>a = b\<close> (also when both are empty); it is 0 when one of them is
  empty and they differ; otherwise it is 1 minus the Levenshtein distance divided by
  the larger of the two lengths. The comparison is case-sensitive: \<^verbatim>\<open>Ab\<close> and
  \<^verbatim>\<open>ab\<close> are at distance 1.
\<close>

theorem calculateStringSimilarity_spec:
  "0 \<le> calculateStringSimilarity a b \<and> calculateStringSimilarity a b \<le> 1 \<and>
   (calculateStringSimilarity a b = 1 \<longleftrightarrow> a = b) \<and>
   calculateStringSimilarity [] [] = 1 \<and>
   calculateStringSimilarity a b =
     (if a = b then 1
      else if a = [] \<or> b = [] then 0
      else 1 - of_nat (lev a b) / of_nat (max (length a) (length b))) \<and>
   calculateStringSimilarity ''Ab'' ''ab'' = 1 / 2"
proof -
  have eq: "calculateStringSimilarity a b =
     (if a = b then 1
      else if a = [] \<or> b = [] then 0
      else 1 - of_nat (lev a b) / of_nat (max (length a) (length b)))"
    by (rule calculateStringSimilarity_lev)
  have range: "0 \<le> calculateStringSimilarity a b \<and> calculateStringSimilarity a b \<le> 1 \<and>
      (calculateStringSimilarity a b = 1 \<longleftrightarrow> a = b)"
  proof (cases "a = b \<or> a = [] \<or> b = []")
    case True
    then show ?thesis by (auto simp: eq)
  next
    case False
    let ?m = "max (length a) (length b)"
    have m: "0 < ?m" using False by (simp add: max_def)
    have l: "lev a b \<le> ?m" by (rule lev_le_max)
    have p: "0 < lev a b" using False lev_eq_0_iff[of a b] by auto
    have q: "(of_nat (lev a b) :: rat) / of_nat ?m \<le> 1"
      using l m by (simp add: divide_le_eq_1)
    have r: "0 < (of_nat (lev a b) :: rat) / of_nat ?m"
      using p m by simp
    have s: "calculateStringSimilarity a b = 1 - of_nat (lev a b) / of_nat ?m"
      using False by (simp add: eq)
    show ?thesis using False p q r unfolding s by auto
  qed
  have c: "calculateStringSimilarity ''Ab'' ''ab'' = 1 / 2"
    by (simp add: calculateStringSimilarity_lev)
  have e: "calculateStringSimilarity [] [] = 1"
    by (simp add: calculateStringSimilarity_lev)
  show ?thesis using eq range c e by blast
qed

text \<open>
  Claim C9. The similarity is symmetric: \<open>similarity(a, b) = similarity(b, a)\<close> for
  all strings.
\<close>

theorem calculateStringSimilarity_symmetric:
  "calculateStringSimilarity a b = calculateStringSimilarity b a"
  unfolding calculateStringSimilarity_lev[of a b] calculateStringSimilarity_lev[of b a]
  by (simp add: lev_sym[of a b] max.commute disj_commute eq_commute)

section \<open>Scoring\<close>

text \<open>
  The three products of the weighted sum are multiples of one tenth, so rounding
  their sum is an integer division.
\<close>

lemma Math_round_tenths:
  "Math_round (of_int a * 0.5 + of_int u * 0.3 + of_int m * 0.2) = (5 * a + 3 * u + 2 * m + 5) div 10"
proof -
  have "(of_int a * 0.5 + of_int u * 0.3 + of_int m * 0.2 + 1 / 2 :: rat)
      = of_int (5 * a + 3 * u + 2 * m + 5) / of_int 10"
    by (simp add: field_simps)
  then show ?thesis
    unfolding Math_round_def by (simp only: floor_divide_of_int_eq)
qed

text \<open>
  Claim C4. For every list of warnings, \<open>calculatePrivacyScore\<close> counts the warnings
  by type, derives the sub-scores \<open>max(0, 100 - overlapCount * 50)\<close>,
  \<open>max(0, 100 - reuseCount * 25)\<close> and \<open>max(0, 100 - metadataCount * 15)\<close>, rounds
  the weighted sum with weights 0.5, 0.3 and 0.2 to the score (halves upwards), and
  takes the grade from the first threshold the score is below: 60 for F, 70 for D,
  80 for C, 90 for B, 95 for A, and A+ from 95 on. One \<open>account_overlap\<close> warning
  gives account isolation 50, score 75 and grade C; the empty list gives score 100,
  grade A+ and every sub-score 100.
\<close>

theorem calculatePrivacyScore_spec:
  "calculatePrivacyScore warnings =
     (let overlapCount = int (length (filter (\<lambda>w. type w = account_overlap) warnings));
          reuseCount = int (length (filter (\<lambda>w. type w = username_reuse) warnings));
          metadataCount = int (length (filter (\<lambda>w. type w = metadata_similarity) warnings));
          isolation = max 0 (100 - overlapCount * 50);
          uniqueness = max 0 (100 - reuseCount * 25);
          separation = max 0 (100 - metadataCount * 15);
          total = \<lfloor>(of_int isolation * (5 / 10) + of_int uniqueness * (3 / 10)
                    + of_int separation * (2 / 10) :: rat) + 1 / 2\<rfloor>
      in \<lparr>score = total,
          grade = (if total < 60 then ''F'' else if total < 70 then ''D''
                   else if total < 80 then ''C'' else if total < 90 then ''B''
                   else if total < 95 then ''A'' else ''A+''),
          accountIsolation = isolation,
          usernameUniqueness = uniqueness,
          metadataSeparation = separation\<rparr>) \<and>
   score (calculatePrivacyScore warnings) =
     (5 * accountIsolation (calculatePrivacyScore warnings)
      + 3 * usernameUniqueness (calculatePrivacyScore warnings)
      + 2 * metadataSeparation (calculatePrivacyScore warnings) + 5) div 10 \<and>
   grade_of 94 = ''A'' \<and> grade_of 95 = ''A+'' \<and>
   calculatePrivacyScore
     [\<lparr>type = account_overlap, description = d, severity = s, affectedPersonas = ps\<rparr>] =
     \<lparr>score = 75, grade = ''C'', accountIsolation = 50,
      usernameUniqueness = 100, metadataSeparation = 100\<rparr> \<and>
   calculatePrivacyScore [] =
     \<lparr>score = 100, grade = ''A+'', accountIsolation = 100,
      usernameUniqueness = 100, metadataSeparation = 100\<rparr>"
proof (intro conjI)
  show "calculatePrivacyScore warnings =
     (let overlapCount = int (length (filter (\<lambda>w. type w = account_overlap) warnings));
          reuseCount = int (length (filter (\<lambda>w. type w = username_reuse) warnings));
          metadataCount = int (length (filter (\<lambda>w. type w = metadata_similarity) warnings));
          isolation = max 0 (100 - overlapCount * 50);
          uniqueness = max 0 (100 - reuseCount * 25);
          separation = max 0 (100 - metadataCount * 15);
          total = \<lfloor>(of_int isolation * (5 / 10) + of_int uniqueness * (3 / 10)
                    + of_int separation * (2 / 10) :: rat) + 1 / 2\<rfloor>
      in \<lparr>score = total,
          grade = (if total < 60 then ''F'' else if total < 70 then ''D''
                   else if total < 80 then ''C'' else if total < 90 then ''B''
                   else if total < 95 then ''A'' else ''A+''),
          accountIsolation = isolation,
          usernameUniqueness = uniqueness,
          metadataSeparation = separation\<rparr>)"
    unfolding calculatePrivacyScore_def Let_def Math_round_def grade_of_def by simp
  show "score (calculatePrivacyScore warnings) =
     (5 * accountIsolation (calculatePrivacyScore warnings)
      + 3 * usernameUniqueness (calculatePrivacyScore warnings)
      + 2 * metadataSeparation (calculatePrivacyScore warnings) + 5) div 10"
    unfolding calculatePrivacyScore_def Let_def Math_round_tenths by simp
  show "grade_of 94 = ''A''" by (simp add: grade_of_def)
  show "grade_of 95 = ''A+''" by (simp add: grade_of_def)
  show "calculatePrivacyScore
     [\<lparr>type = account_overlap, description = d, severity = s, affectedPersonas = ps\<rparr>] =
     \<lparr>score = 75, grade = ''C'', accountIsolation = 50,
      usernameUniqueness = 100, metadataSeparation = 100\<rparr>"
    unfolding calculatePrivacyScore_def Let_def Math_round_tenths by (simp add: grade_of_def)
  show "calculatePrivacyScore [] =
     \<lparr>score = 100, grade = ''A+'', accountIsolation = 100,
      usernameUniqueness = 100, metadataSeparation = 100\<rparr>"
    unfolding calculatePrivacyScore_def Let_def Math_round_tenths by (simp add: grade_of_def)
qed

section \<open>Orchestration\<close>

text \<open>
  Claim C5. \<open>analyzePrivacy\<close> returns the empty list for at most one persona; for
  two or more it returns the output of the account-overlap detector, then that of the
  username detector, then that of the metadata detector, concatenated in this order
  and with nothing removed.
\<close>

theorem analyzePrivacy_spec:
  "(length personas \<le> 1 \<longrightarrow> analyzePrivacy personas = []) \<and>
   (2 \<le> length personas \<longrightarrow>
      analyzePrivacy personas =
        detectAccountOverlaps personas @ detectUsernamePatterns personas
        @ detectMetadataSimilarities personas)"
  by (simp add: analyzePrivacy_def Let_def)

text \<open>
  Two personas that share one account and have the same notes: the overlap warning and
  the metadata warning name the same two personas, and both are returned. Lists of
  length 0 and 1 give no warning.
\<close>

theorem analyzePrivacy_spec_witness:
  "analyzePrivacy [] = [] \<and>
   analyzePrivacy [mk_persona ''P1'' [''x:@a''] ''hi''] = [] \<and>
   analyzePrivacy [mk_persona ''P1'' [''x:@a''] ''hi'', mk_persona ''P2'' [''x:@a''] ''hi''] =
     detectAccountOverlaps [mk_persona ''P1'' [''x:@a''] ''hi'', mk_persona ''P2'' [''x:@a''] ''hi'']
     @ detectUsernamePatterns [mk_persona ''P1'' [''x:@a''] ''hi'', mk_persona ''P2'' [''x:@a''] ''hi'']
     @ detectMetadataSimilarities [mk_persona ''P1'' [''x:@a''] ''hi'', mk_persona ''P2'' [''x:@a''] ''hi'']"
  using analyzePrivacy_spec[of "[]"]
    analyzePrivacy_spec[of "[mk_persona ''P1'' [''x:@a''] ''hi'']"]
    analyzePrivacy_spec[of "[mk_persona ''P1'' [''x:@a''] ''hi'', mk_persona ''P2'' [''x:@a''] ''hi'']"]
  by simp

section \<open>The detectors\<close>

text \<open>
  Claim C1. The account-overlap detector is claimed to warn about an account string
  only when at least two distinct personas hold it, and to list no persona twice. The
  code compares the raw number of occurrences: \<open>detectAccountOverlaps_closed\<close>
  gives its output for every input, and on the input below, where persona \<open>P1\<close>
  lists the account \<^verbatim>\<open>x:@a\<close> twice and \<open>P2\<close> lists nothing, it emits a warning
  whose \<open>affectedPersonas\<close> is \<open>[P1, P1]\<close>.
\<close>

theorem detectAccountOverlaps_same_persona_twice:
  "detectAccountOverlaps [mk_persona ''P1'' [''x:@a'', ''x:@a''] [], mk_persona ''P2'' [] []] =
     [\<lparr>type = account_overlap,
       description = ''Account '' @ dquote @ ''x:@a'' @ dquote @ '' is used in multiple personas'',
       severity = high,
       affectedPersonas = [''P1'', ''P1'']\<rparr>] \<and>
   analyzePrivacy [mk_persona ''P1'' [''x:@a'', ''x:@a''] [], mk_persona ''P2'' [] []] =
     [\<lparr>type = account_overlap,
       description = ''Account '' @ dquote @ ''x:@a'' @ dquote @ '' is used in multiple personas'',
       severity = high,
       affectedPersonas = [''P1'', ''P1'']\<rparr>]"
  by code_simp

text \<open>
  Claim C2. The username detector collects, in encounter order, the lowercased second
  part of every account that splits at colons into exactly two parts
  (\<open>username_entries\<close>; other accounts contribute nothing). Its output is, for the
  index pairs \<open>i < j\<close> of the list of distinct usernames in first-occurrence order,
  one \<open>username_reuse\<close> warning of severity \<open>medium\<close> exactly when the similarity
  of the two usernames exceeds \<open>7/10\<close>, whose \<open>affectedPersonas\<close> are the ids
  recorded under either username with duplicates removed. Lowercasing adds 32 to the
  code units of the capitals (65 to 90, and 192 to 222 except 215) and changes no
  other. When all collected usernames are the same string, no pair is compared and
  nothing is emitted.
\<close>

theorem detectUsernamePatterns_spec:
  "detectUsernamePatterns personas =
     (let entries = username_entries personas;
          usernames = spread_set (map fst entries)
      in concat (map (\<lambda>(i, j).
                   if calculateStringSimilarity (usernames ! i) (usernames ! j) > 7 / 10
                   then [\<lparr>type = username_reuse,
                          description = ''Similar usernames detected: '' @ dquote @ usernames ! i
                             @ dquote @ '' and '' @ dquote @ usernames ! j @ dquote,
                          severity = medium,
                          affectedPersonas =
                            spread_set (ids_for (usernames ! i) entries
                                        @ ids_for (usernames ! j) entries)\<rparr>]
                   else [])
                 (index_pairs (length usernames)))) \<and>
   distinct (spread_set (map fst (username_entries personas))) \<and>
   set (spread_set (map fst (username_entries personas))) = fst ` set (username_entries personas) \<and>
   set (index_pairs n) = {(i, j). i < j \<and> j < n} \<and> distinct (index_pairs n) \<and>
   distinct (spread_set (ids :: string list)) \<and> set (spread_set ids) = set ids \<and>
   map of_char (toLowerCase s) =
     map (\<lambda>c. if (65 \<le> (of_char c :: nat) \<and> (of_char c :: nat) \<le> 90) \<or>
                  (192 \<le> (of_char c :: nat) \<and> (of_char c :: nat) \<le> 222 \<and>
                   (of_char c :: nat) \<noteq> 215)
               then of_char c + 32 else (of_char c :: nat)) s \<and>
   (fst ` set (username_entries personas) \<subseteq> {u} \<longrightarrow> detectUsernamePatterns personas = [])"
  (is "?closed \<and> ?dk \<and> ?sk \<and> ?sp \<and> ?dp \<and> ?di \<and> ?si \<and> ?lower \<and> ?single")
proof -
  have 1: ?closed
    unfolding detectUsernamePatterns_closed username_warning_def ..
  have 2: ?dk and 3: ?sk and 6: ?di and 7: ?si
    by simp_all
  have 4: ?sp by (rule set_index_pairs)
  have 5: ?dp by (rule distinct_index_pairs)
  have 8: ?single
  proof
    assume a: "fst ` set (username_entries personas) \<subseteq> {u}"
    let ?us = "spread_set (map fst (username_entries personas))"
    have sub: "set ?us \<subseteq> {u}" using a by simp
    have "length ?us = card (set ?us)"
      by (simp add: distinct_card del: set_spread_set)
    also have "\<dots> \<le> card {u}"
      by (rule card_mono) (use sub in simp_all)
    finally have "length ?us \<le> 1" by simp
    then have "index_pairs (length ?us) = []"
      by (rule index_pairs_short)
    then show "detectUsernamePatterns personas = []"
      unfolding detectUsernamePatterns_closed Let_def by simp
  qed
  have 9: ?lower by (rule code_units_toLowerCase)
  from 1 2 3 4 5 6 7 9 8 show ?thesis by (intro conjI)
qed

text \<open>
  One persona with the same username on two platforms (and two accounts that do not
  split into two parts): a single distinct username, no warning. Two personas with
  the usernames \<^verbatim>\<open>alice123\<close> and \<^verbatim>\<open>Alice124\<close>: one warning naming both, and the
  same for \<^verbatim>\<open>JOS\<close> U+00C9 \<^verbatim>\<open>123\<close> and \<^verbatim>\<open>jos\<close> U+00E9 \<^verbatim>\<open>124\<close>. Two personas
  whose usernames differ only in the case of an accented first letter (U+00C9 and
  U+00E9): one distinct username, no warning. Two usernames of similarity exactly
  7/10: no warning.
\<close>

theorem detectUsernamePatterns_spec_witness:
  "fst ` set (username_entries
       [mk_persona ''P1'' [''twitter:Bob'', ''github:bob'', ''nocolon'', ''a:b:c''] []])
     \<subseteq> {''bob''} \<and>
   detectUsernamePatterns
     [mk_persona ''P1'' [''twitter:Bob'', ''github:bob'', ''nocolon'', ''a:b:c''] []] = [] \<and>
   detectUsernamePatterns
     [mk_persona ''P1'' [''x:alice123'', ''web:Bob''] [],
      mk_persona ''P2'' [''y:Alice124'', ''z:bob''] []] =
     [\<lparr>type = username_reuse,
       description = ''Similar usernames detected: '' @ dquote @ ''alice123'' @ dquote
                     @ '' and '' @ dquote @ ''alice124'' @ dquote,
       severity = medium,
       affectedPersonas = [''P1'', ''P2'']\<rparr>] \<and>
   detectUsernamePatterns
     [mk_persona ''P1'' [''x:JOS'' @ [CHR 0xC9] @ ''123''] [],
      mk_persona ''P2'' [''y:jos'' @ [CHR 0xE9] @ ''124''] []] =
     [\<lparr>type = username_reuse,
       description = ''Similar usernames detected: '' @ dquote @ ''jos'' @ [CHR 0xE9] @ ''123''
                     @ dquote @ '' and '' @ dquote @ ''jos'' @ [CHR 0xE9] @ ''124'' @ dquote,
       severity = medium,
       affectedPersonas = [''P1'', ''P2'']\<rparr>] \<and>
   fst ` set (username_entries
       [mk_persona ''P1'' [''x:'' @ [CHR 0xC9] @ ''lodie12''] [],
        mk_persona ''P2'' [''y:'' @ [CHR 0xE9] @ ''lodie12''] []])
     \<subseteq> {[CHR 0xE9] @ ''lodie12''} \<and>
   detectUsernamePatterns
     [mk_persona ''P1'' [''x:'' @ [CHR 0xC9] @ ''lodie12''] [],
      mk_persona ''P2'' [''y:'' @ [CHR 0xE9] @ ''lodie12''] []] = [] \<and>
   detectUsernamePatterns
     [mk_persona ''P1'' [''x:abcdefghij''] [], mk_persona ''P2'' [''y:abcdefgxyz''] []] = []"
  (is "?h1 \<and> ?none1 \<and> ?one1 \<and> ?one2 \<and> ?h2 \<and> ?none2 \<and> ?none3")
proof -
  let ?ps = "[mk_persona ''P1'' [''twitter:Bob'', ''github:bob'', ''nocolon'', ''a:b:c''] []]"
  let ?qs = "[mk_persona ''P1'' [''x:'' @ [CHR 0xC9] @ ''lodie12''] [],
              mk_persona ''P2'' [''y:'' @ [CHR 0xE9] @ ''lodie12''] []]"
  have "map fst (username_entries ?ps) = [''bob'', ''bob'']"
    by code_simp
  then have h1: ?h1
    by (simp flip: set_map)
  have none1: ?none1
    using h1 detectUsernamePatterns_spec[of ?ps 0 "[]" "[]" "''bob''"] by blast
  have "map fst (username_entries ?qs) = [[CHR 0xE9] @ ''lodie12'', [CHR 0xE9] @ ''lodie12'']"
    by code_simp
  then have h2: ?h2
    by (simp flip: set_map)
  have none2: ?none2
    using h2 detectUsernamePatterns_spec[of ?qs 0 "[]" "[]" "[CHR 0xE9] @ ''lodie12''"] by blast
  have one1: ?one1 by code_simp
  have one2: ?one2 by code_simp
  have none3: ?none3 by code_simp
  from h1 none1 one1 one2 h2 none2 none3 show ?thesis by (intro conjI)
qed

text \<open>
  Claim C6. The metadata detector runs over the index pairs \<open>i < j\<close> of the persona
  list, each once; a pair with an empty \<open>notes\<close> string on either side yields
  nothing, and any other pair yields exactly one \<open>metadata_similarity\<close> warning of
  severity \<open>low\<close> with \<open>affectedPersonas = [id i, id j]\<close> when the similarity of
  the lowercased notes exceeds \<open>1/2\<close>, and nothing otherwise. Lowercasing adds 32
  to the code units of the capitals (65 to 90, and 192 to 222 except 215) and changes
  no other. On the notes \<^verbatim>\<open>Hello\<close>, \<^verbatim>\<open>HELLO\<close>, the empty string and \<^verbatim>\<open>help\<close> the
  three pairs without the empty string are reported (similarities 1, 3/5 and 3/5);
  the notes U+00C9 and U+00E9, a capital and its small letter, are reported; the notes
  \<^verbatim>\<open>abcd\<close> and \<^verbatim>\<open>abxy\<close>, of similarity exactly 1/2, are not.
\<close>

theorem detectMetadataSimilarities_spec:
  "detectMetadataSimilarities personas =
     concat (map (\<lambda>(i, j).
                   if notes_p (privateData (personas ! i)) = [] \<or>
                      notes_p (privateData (personas ! j)) = []
                   then []
                   else if calculateStringSimilarity
                        (toLowerCase (notes_p (privateData (personas ! i))))
                        (toLowerCase (notes_p (privateData (personas ! j)))) > 1 / 2
                   then [\<lparr>type = metadata_similarity,
                          description = ''Similar notes detected between personas'',
                          severity = low,
                          affectedPersonas = [id_p (personas ! i), id_p (personas ! j)]\<rparr>]
                   else [])
                 (index_pairs (length personas))) \<and>
   set (index_pairs (length personas)) = {(i, j). i < j \<and> j < length personas} \<and>
   distinct (index_pairs (length personas)) \<and>
   map of_char (toLowerCase s) =
     map (\<lambda>c. if (65 \<le> (of_char c :: nat) \<and> (of_char c :: nat) \<le> 90) \<or>
                  (192 \<le> (of_char c :: nat) \<and> (of_char c :: nat) \<le> 222 \<and>
                   (of_char c :: nat) \<noteq> 215)
               then of_char c + 32 else (of_char c :: nat)) s \<and>
   detectMetadataSimilarities
     [mk_persona ''P1'' [] ''Hello'', mk_persona ''P2'' [] ''HELLO'',
      mk_persona ''P3'' [] [], mk_persona ''P4'' [] ''help''] =
     [\<lparr>type = metadata_similarity, description = ''Similar notes detected between personas'',
       severity = low, affectedPersonas = [''P1'', ''P2'']\<rparr>,
      \<lparr>type = metadata_similarity, description = ''Similar notes detected between personas'',
       severity = low, affectedPersonas = [''P1'', ''P4'']\<rparr>,
      \<lparr>type = metadata_similarity, description = ''Similar notes detected between personas'',
       severity = low, affectedPersonas = [''P2'', ''P4'']\<rparr>] \<and>
   detectMetadataSimilarities
     [mk_persona ''P1'' [] [CHR 0xC9], mk_persona ''P2'' [] [CHR 0xE9]] =
     [\<lparr>type = metadata_similarity, description = ''Similar notes detected between personas'',
       severity = low, affectedPersonas = [''P1'', ''P2'']\<rparr>] \<and>
   detectMetadataSimilarities
     [mk_persona ''P1'' [] ''abcd'', mk_persona ''P2'' [] ''abxy''] = []"
  (is "?closed \<and> ?sp \<and> ?dp \<and> ?lower \<and> ?ex1 \<and> ?ex2 \<and> ?ex3")
proof -
  have 1: ?closed
    unfolding detectMetadataSimilarities_closed metadata_warning_def
    by (rule concat_map_cong_set) auto
  have 2: ?sp by (rule set_index_pairs)
  have 3: ?dp by (rule distinct_index_pairs)
  have 4: ?lower by (rule code_units_toLowerCase)
  have 5: ?ex1 by code_simp
  have 6: ?ex2 by code_simp
  have 7: ?ex3 by code_simp
  from 1 2 3 4 5 6 7 show ?thesis by (intro conjI)
qed

section \<open>Recommendations\<close>

text \<open>
  Claim C7. The description of an overlap warning quotes the account string, and
  \<open>generateRecommendations\<close> names the first quoted, non-empty, quote-free substring
  of the description; it is claimed that for a warning the detector produced the
  account itself is re-extracted and named. Lemma \<open>generateRecommendations_closed\<close>
  gives the recommendations for every list of warnings (a warning whose description
  has no such substring contributes no per-account message), and lemma
  \<open>match_quoted_overlap_warning\<close> shows the re-extraction for a non-empty account
  without a double quote. For the account that
  consists of \<^verbatim>\<open>x:\<close> followed by the letter \<^verbatim>\<open>a\<close> in double quotes, shared by two
  personas, the recommendation names \<^verbatim>\<open>x:\<close> instead; for the empty account string,
  shared by two personas, no account is named at all.
\<close>

theorem generateRecommendations_quoted_account:
  "generateRecommendations
     (analyzePrivacy
        [mk_persona ''P1'' [''x:'' @ dquote @ ''a'' @ dquote] [],
         mk_persona ''P2'' [''x:'' @ dquote @ ''a'' @ dquote] []]) =
     [''Avoid using the same accounts across different personas to maintain separation.'',
      ''Consider removing account '' @ dquote @ ''x:'' @ dquote @ '' from all but one persona.'',
      ''Consider using different writing styles for each persona to avoid stylometric analysis.'',
      ''Be mindful of timing patterns - avoid switching between personas at predictable intervals.''] \<and>
   generateRecommendations
     (analyzePrivacy [mk_persona ''P1'' [[]] [], mk_persona ''P2'' [[]] []]) =
     [''Avoid using the same accounts across different personas to maintain separation.'',
      ''Consider using different writing styles for each persona to avoid stylometric analysis.'',
      ''Be mindful of timing patterns - avoid switching between personas at predictable intervals.'']"
  by code_simp

section \<open>Graph transform\<close>

text \<open>
  Claim C8. \<open>generateGraphData\<close> returns one node per persona, with its id, the
  number of its accounts and the first 8 characters of the id as label (the whole id
  when it is shorter), and for each warning one link per index pair \<open>i < j\<close> of its
  \<open>affectedPersonas\<close>, carrying the type and severity of the warning. Links of
  different warnings are kept side by side: the links of a concatenation are the
  concatenation of the links, and their number is the sum of \<open>k (k - 1) / 2\<close> over
  the warnings with \<open>k\<close> affected personas. A warning that names three personas
  yields exactly three links.
\<close>

theorem generateGraphData_spec:
  "nodes (generateGraphData personas warnings) =
     map (\<lambda>p. \<lparr>node_id = id_p p,
                node_type = ''persona'',
                node_accounts = length (accounts (privateData p)),
                label = (if length (id_p p) < 8 then id_p p else take 8 (id_p p))\<rparr>)
         personas \<and>
   links (generateGraphData personas warnings) =
     concat (map (\<lambda>w. map (\<lambda>(i, j).
                             \<lparr>source = affectedPersonas w ! i,
                              target = affectedPersonas w ! j,
                              link_type = type w,
                              link_severity = severity w\<rparr>)
                           (index_pairs (length (affectedPersonas w))))
                 warnings) \<and>
   set (index_pairs n) = {(i, j). i < j \<and> j < n} \<and> distinct (index_pairs n) \<and>
   links (generateGraphData personas (warnings @ warnings')) =
     links (generateGraphData personas warnings) @ links (generateGraphData personas warnings') \<and>
   length (links (generateGraphData personas warnings)) =
     sum_list (map (\<lambda>w. length (affectedPersonas w) * (length (affectedPersonas w) - 1) div 2)
                   warnings) \<and>
   links (generateGraphData personas
            [\<lparr>type = t, description = d, severity = s, affectedPersonas = [a, b, c]\<rparr>]) =
     [\<lparr>source = a, target = b, link_type = t, link_severity = s\<rparr>,
      \<lparr>source = a, target = c, link_type = t, link_severity = s\<rparr>,
      \<lparr>source = b, target = c, link_type = t, link_severity = s\<rparr>]"
  (is "?nodes \<and> ?links \<and> ?sp \<and> ?dp \<and> ?app \<and> ?count \<and> ?three")
proof -
  have 1: ?nodes
    by (simp add: generateGraphData_def)
  have 2: ?links
    by (rule links_closed)
  have 3: ?sp by (rule set_index_pairs)
  have 4: ?dp by (rule distinct_index_pairs)
  have 5: ?app
    unfolding links_closed by simp
  have 6: ?three
    unfolding links_closed by (simp add: index_pairs_3)
  have 7: ?count
    unfolding links_closed by (simp add: length_concat comp_def length_index_pairs)
  from 1 2 3 4 5 7 6 show ?thesis by (intro conjI)
qed

text \<open>
  Claim C10. The warnings are not checked against the personas: for some input, a
  returned link has an endpoint that is the id of no returned node.
\<close>

theorem generateGraphData_dangling_link:
  "\<exists>personas warnings l.
     l \<in> set (links (generateGraphData personas warnings)) \<and>
     \<not> (source l \<in> set (map node_id (nodes (generateGraphData personas warnings))) \<and>
        target l \<in> set (map node_id (nodes (generateGraphData personas warnings))))"
proof (intro exI conjI)
  let ?ps = "[mk_persona ''P1'' [] []]"
  let ?ws = "[\<lparr>type = account_overlap, description = [], severity = high,
               affectedPersonas = [''P1'', ''ghost'']\<rparr>]"
  let ?l = "\<lparr>source = ''P1'', target = ''ghost'', link_type = account_overlap,
             link_severity = high\<rparr>"
  show "?l \<in> set (links (generateGraphData ?ps ?ws))"
    unfolding links_closed by (simp add: index_pairs_2)
  show "\<not> (source ?l \<in> set (map node_id (nodes (generateGraphData ?ps ?ws))) \<and>
        target ?l \<in> set (map node_id (nodes (generateGraphData ?ps ?ws))))"
    by (simp add: generateGraphData_def mk_persona_def)
qed

end
